theory Spec2Isabelle
  imports Complex_Main
begin

section \<open>Grammar correction notebook: sentence splitting and batching\<close>

text \<open>
  The source splits the text with
  \<^verbatim>\<open>re.split(r"(?<=[^A-Z].[.?]) +(?=[A-Z])", text)\<close>.
  A match is a maximal run of one or more spaces such that the three characters before
  it are: a character outside \<open>A-Z\<close>, a character other than a newline, and a full stop
  or question mark; and such that the character after the run is in \<open>A-Z\<close>.
  The run is maximal because a shorter run is followed by a space, which the look-ahead
  refuses. Text is a \<open>string\<close>, one \<open>char\<close> per character.
\<close>

definition is_upper :: "char \<Rightarrow> bool" where
  "is_upper c = (c \<in> set ''ABCDEFGHIJKLMNOPQRSTUVWXYZ'')"

definition is_space :: "char \<Rightarrow> bool" where
  "is_space c = (c = CHR '' '')"

text \<open>
  The look-behind \<^verbatim>\<open>(?<=[^A-Z].[.?])\<close>, on the characters already passed, most
  recent first. It sees the whole text before the position, also the part consumed by an
  earlier match.
\<close>

fun lookbehind :: "string \<Rightarrow> bool" where
  "lookbehind (c # b # a # _) =
     (\<not> is_upper a \<and> b \<noteq> CHR 0x0A \<and> (c = CHR ''.'' \<or> c = CHR ''?''))"
| "lookbehind _ = False"

text \<open>The look-ahead \<^verbatim>\<open>(?=[A-Z])\<close>, on the text that follows.\<close>

fun lookahead :: "string \<Rightarrow> bool" where
  "lookahead [] = False"
| "lookahead (c # _) = is_upper c"

text \<open>
  \<open>re_split_scan prev cur rest\<close> scans \<open>rest\<close> from left to right; \<open>prev\<close> holds the
  characters passed so far (most recent first) and \<open>cur\<close> the piece being collected
  (most recent first). At the leftmost match the piece is closed and the scan goes on
  behind the match.
\<close>

function re_split_scan :: "string \<Rightarrow> string \<Rightarrow> string \<Rightarrow> string list" where
  "re_split_scan prev cur [] = [rev cur]"
| "re_split_scan prev cur (c # rest) =
     (if is_space c \<and> lookbehind prev \<and> lookahead (dropWhile is_space rest)
      then rev cur #
           re_split_scan (rev (takeWhile is_space rest) @ c # prev) [] (dropWhile is_space rest)
      else re_split_scan (c # prev) (c # cur) rest)"
  by pat_completeness auto
termination
  by (relation "measure (\<lambda>(prev, cur, rest). length rest)")
     (auto simp: length_dropWhile_le less_Suc_eq_le)

definition re_split :: "string \<Rightarrow> string list" where
  "re_split text = re_split_scan [] [] text"

text \<open>
  The batching loop of \<open>split_text\<close>: \<open>lst\<close> is \<open>sentences[-1]\<close>, \<open>batches\<close> is
  \<open>sentence_batches\<close> and \<open>temp\<close> is \<open>temp_batch\<close>.
\<close>

fun batch_loop :: "string \<Rightarrow> string list \<Rightarrow> string list list \<Rightarrow> string list \<Rightarrow> string list list" where
  "batch_loop lst [] batches temp = batches"
| "batch_loop lst (sentence # rest) batches temp =
     (let temp' = temp @ [sentence] in
      if (2 \<le> length temp' \<and> length temp' \<le> 3) \<or> sentence = lst
      then batch_loop lst rest (batches @ [temp']) []
      else batch_loop lst rest batches temp')"

definition split_text :: "string \<Rightarrow> string list list" where
  "split_text text = (let sentences = re_split text in batch_loop (last sentences) sentences [] [])"


subsection \<open>The correction loop\<close>

text \<open>
  The checker and the corrector are pipelines of an external library; they are taken as
  functions of the raw text. \<open>checker raw_text\<close> stands for \<open>results[0]\<close>, with its label
  and its score (a probability, taken as a real number), and \<open>corrector raw_text\<close> for
  \<open>corrected_batch[0]["generated_text"]\<close>. The progress bar around the batches only
  passes them on.
\<close>

record check_result =
  label :: string
  score :: real

text \<open>Python's \<open>separator.join(items)\<close>.\<close>

fun py_join :: "string \<Rightarrow> string list \<Rightarrow> string" where
  "py_join sep [] = []"
| "py_join sep [x] = x"
| "py_join sep (x # y # ys) = x @ sep @ py_join sep (y # ys)"

fun correct_loop ::
  "(string \<Rightarrow> check_result) \<Rightarrow> (string \<Rightarrow> string) \<Rightarrow> string list list \<Rightarrow> string list \<Rightarrow> string list" where
  "correct_loop checker corrector [] corrected_text = corrected_text"
| "correct_loop checker corrector (batch # rest) corrected_text =
     (let raw_text = py_join '' '' batch;
          results = checker raw_text
      in if label results \<noteq> ''LABEL_1'' \<or> (label results = ''LABEL_1'' \<and> score results < 0.9)
         then correct_loop checker corrector rest (corrected_text @ [corrector raw_text])
         else correct_loop checker corrector rest (corrected_text @ [raw_text]))"

definition correct_text ::
  "string \<Rightarrow> (string \<Rightarrow> check_result) \<Rightarrow> (string \<Rightarrow> string) \<Rightarrow> string \<Rightarrow> string" where
  "correct_text text checker corrector separator =
     (let sentence_batches = split_text text;
          corrected_text = correct_loop checker corrector sentence_batches []
      in py_join separator corrected_text)"

text \<open>
  The output of one batch as the specification words it: the raw text is kept exactly when
  the checker answers \<open>LABEL_1\<close> with a score of at least 0.9, and is replaced by the
  corrector's text otherwise.
\<close>

definition batch_output :: "(string \<Rightarrow> check_result) \<Rightarrow> (string \<Rightarrow> string) \<Rightarrow> string list \<Rightarrow> string" where
  "batch_output checker corrector batch =
     (if label (checker (py_join '' '' batch)) = ''LABEL_1'' \<and> 0.9 \<le> score (checker (py_join '' '' batch))
      then py_join '' '' batch
      else corrector (py_join '' '' batch))"

section \<open>Python helpers\<close>

text \<open>
  The exceptions the modelled code can raise: the explicit \<open>Exception\<close> of
  \<open>Accuracy.update\<close>, and the built-in ones.
\<close>

datatype py_error = Exception_multiple_outputs | IndexError | ValueError | StopIteration

text \<open>Indexing a sequence, \<open>xs[i]\<close>: a negative index counts from the end.\<close>

definition py_getitem :: "'a list \<Rightarrow> int \<Rightarrow> py_error + 'a" where
  "py_getitem xs i =
     (if 0 \<le> i \<and> i < int (length xs) then Inr (xs ! nat i)
      else if i < 0 \<and> - int (length xs) \<le> i then Inr (xs ! nat (int (length xs) + i))
      else Inl IndexError)"

text \<open>
  The slice \<open>xs[start:]\<close>: a negative start counts from the end, and a start outside
  the sequence is clipped.
\<close>

definition py_slice_from :: "int \<Rightarrow> 'a list \<Rightarrow> 'a list" where
  "py_slice_from start xs =
     (let n = int (length xs);
          s = (if start < 0 then max (n + start) 0 else min start n)
      in drop (nat s) xs)"

text \<open>Decimal notation, for \<open>'{}'.format(i)\<close> and \<open>f"{i:05d}"\<close>.\<close>

definition digit_char :: "nat \<Rightarrow> char" where
  "digit_char d = ''0123456789'' ! d"

function digits :: "nat \<Rightarrow> string" where
  "digits n = (if n < 10 then [digit_char n] else digits (n div 10) @ [digit_char (n mod 10)])"
  by pat_completeness auto
termination
  by (relation "measure id") auto

definition str_int :: "int \<Rightarrow> string" where
  "str_int i = (if i < 0 then CHR ''-'' # digits (nat (- i)) else digits (nat i))"

section \<open>Quantization notebook: the accuracy metric\<close>

text \<open>
  The metric object: \<open>_top_k\<close>, \<open>_name\<close> and \<open>_matches\<close>. A match indicator is the
  float 0.0 or 1.0; scores and indicators are taken as real numbers.
\<close>

record accuracy =
  top_k :: int
  name :: string
  matches :: "real list list"

definition accuracy_init :: "int \<Rightarrow> accuracy" where
  "accuracy_init k = \<lparr>top_k = k, name = ''accuracy@top'' @ str_int k, matches = []\<rparr>"

text \<open>
  The annotations are a list of labels, or a dictionary whose values (in insertion
  order) are the labels.
\<close>

datatype 'k target = TargetList "int list" | TargetDict "('k \<times> int) list"

fun target_values :: "'k target \<Rightarrow> int list" where
  "target_values (TargetList ts) = ts"
| "target_values (TargetDict kvs) = map snd kvs"

text \<open>
  \<open>np.argsort\<close> of one row: the class indices in ascending order of score. Where two
  scores are equal numpy leaves the order open; the model puts the smaller index first.
\<close>

definition argsort :: "real list \<Rightarrow> int list" where
  "argsort row = map int (sort_key (\<lambda>i. row ! i) [0..<length row])"

text \<open>One row of \<open>predictions\<close>: \<open>argsort(row)[-top_k:]\<close>.\<close>

definition top_indices :: "int \<Rightarrow> real list \<Rightarrow> int list" where
  "top_indices k row = py_slice_from (- k) (argsort row)"

text \<open>
  \<open>output[0]\<close> is a two-dimensional array, a list of rows, one row of class scores per
  sample; \<open>predictions = np.argsort(output[0], axis=1)[:, -self._top_k:]\<close>.
\<close>

definition predictions_of :: "int \<Rightarrow> real list list \<Rightarrow> int list list" where
  "predictions_of k out0 = map (top_indices k) out0"

text \<open>
  The comprehension \<open>[float(t in predictions[i]) for i, t in enumerate(target)]\<close>, from
  position \<open>i\<close> on; \<open>predictions[i]\<close> raises when there is no row \<open>i\<close>.
\<close>

fun match_from :: "int list list \<Rightarrow> nat \<Rightarrow> int list \<Rightarrow> py_error + real list" where
  "match_from predictions i [] = Inr []"
| "match_from predictions i (t # ts) =
     (if i < length predictions
      then (case match_from predictions (Suc i) ts of
              Inl e \<Rightarrow> Inl e
            | Inr ms \<Rightarrow> Inr ((if t \<in> set (predictions ! i) then 1 else 0) # ms))
      else Inl IndexError)"

text \<open>Everything \<open>update\<close> does before it touches \<open>self._matches\<close>.\<close>

definition update_match :: "int \<Rightarrow> real list list list \<Rightarrow> 'k target \<Rightarrow> py_error + real list" where
  "update_match k output target =
     (if length output > 1 then Inl Exception_multiple_outputs
      else case output of
             [] \<Rightarrow> Inl IndexError
           | out0 # _ \<Rightarrow> match_from (predictions_of k out0) 0 (target_values target))"

text \<open>
  \<open>update\<close> returns the exception it raised, if any, and the object as the call left it.
  The append is the last statement.
\<close>

definition update :: "accuracy \<Rightarrow> real list list list \<Rightarrow> 'k target \<Rightarrow> py_error option \<times> accuracy" where
  "update self output target =
     (case update_match (top_k self) output target of
        Inl e \<Rightarrow> (Some e, self)
      | Inr match \<Rightarrow> (None, self\<lparr>matches := matches self @ [match]\<rparr>))"

definition reset :: "accuracy \<Rightarrow> accuracy" where
  "reset self = self\<lparr>matches := []\<rparr>"

text \<open>The property \<open>value\<close>: \<open>{self._name: self._matches[-1]}\<close>, as a pair.\<close>

definition value_of :: "accuracy \<Rightarrow> py_error + string \<times> real list" where
  "value_of self =
     (if matches self = [] then Inl IndexError else Inr (name self, last (matches self)))"

text \<open>
  The property \<open>avg_value\<close>: \<open>{self._name: np.ravel(self._matches).mean()}\<close>. numpy makes
  an array of the nested list only when the inner lists have one length (otherwise it
  raises \<open>ValueError\<close>; older versions build an array of objects whose mean raises
  \<open>TypeError\<close>). The mean of an empty array is NaN. The rounding of the final division
  is left out: the mean is the exact quotient.
\<close>

datatype np_float = Float real | NaN

definition homogeneous :: "'a list list \<Rightarrow> bool" where
  "homogeneous xss =
     (case xss of [] \<Rightarrow> True | xs # rest \<Rightarrow> list_all (\<lambda>ys. length ys = length xs) rest)"

definition np_mean :: "real list \<Rightarrow> np_float" where
  "np_mean xs = (if xs = [] then NaN else Float (sum_list xs / real (length xs)))"

definition avg_value :: "accuracy \<Rightarrow> py_error + string \<times> np_float" where
  "avg_value self =
     (if homogeneous (matches self) then Inr (name self, np_mean (concat (matches self)))
      else Inl ValueError)"

text \<open>
  A sequence of calls on one metric object. \<open>update_all\<close> stops at the first exception, as
  a caller that does not catch it would; \<open>run\<close> goes on after an exception, as a caller
  that catches it would, with the object as the failed call left it.
\<close>

datatype 'k call = Update "real list list list" "'k target" | Reset

fun update_all :: "accuracy \<Rightarrow> (real list list list \<times> 'k target) list \<Rightarrow> py_error + accuracy" where
  "update_all self [] = Inr self"
| "update_all self ((output, target) # calls) =
     (case update self output target of
        (Some e, _) \<Rightarrow> Inl e
      | (None, self') \<Rightarrow> update_all self' calls)"

fun run :: "accuracy \<Rightarrow> 'k call list \<Rightarrow> accuracy" where
  "run self [] = self"
| "run self (Update output target # calls) = run (snd (update self output target)) calls"
| "run self (Reset # calls) = run (reset self) calls"

text \<open>
  The specification's words for the indicators. A set of class indices is a top-\<open>k\<close> set
  of a row when it holds \<open>k\<close> indices of the row (all of them if the row has fewer) and
  no index outside it has a higher score than an index inside it. The indicator of a
  sample is 1.0 when its label is among the top-\<open>k\<close> predicted indices, and the match
  list of one update holds the indicators of its samples.
\<close>

definition is_top_k :: "nat \<Rightarrow> real list \<Rightarrow> int set \<Rightarrow> bool" where
  "is_top_k k row T =
     (T \<subseteq> int ` {0..<length row} \<and> card T = min k (length row) \<and>
      (\<forall>i \<in> T. \<forall>j \<in> int ` {0..<length row} - T. row ! nat j \<le> row ! nat i))"

definition indicator :: "int \<Rightarrow> real list \<Rightarrow> int \<Rightarrow> real" where
  "indicator k row t = (if t \<in> set (top_indices k row) then 1 else 0)"

definition spec_match :: "int \<Rightarrow> real list list list \<times> 'k target \<Rightarrow> real list" where
  "spec_match k call =
     map (\<lambda>(row, t). indicator k row t) (zip (hd (fst call)) (target_values (snd call)))"

definition arith_mean :: "real list \<Rightarrow> real" where
  "arith_mean xs = sum_list xs / real (length xs)"

text \<open>
  A call that leaves the metric object as it is: an \<open>update\<close> that raises.
\<close>

definition failing_update :: "int \<Rightarrow> 'k call \<Rightarrow> bool" where
  "failing_update k c =
     (case c of Update out tgt \<Rightarrow> isl (update_match k out tgt) | Reset \<Rightarrow> False)"

section \<open>Quantization notebook: the CIFAR10 data loader\<close>

text \<open>
  The wrapped dataset is a sequence of pairs of an image tensor and a label; the
  constructor takes it from the notebook's global \<open>dataset\<close>, which is a parameter here.
  \<open>numpy\<close> stands for the method \<open>image.numpy()\<close>.
\<close>

record ('cfg, 'img) cifar_data_loader =
  config :: 'cfg
  dataset :: "('img \<times> int) list"

definition cifar_init :: "('img \<times> int) list \<Rightarrow> 'cfg \<Rightarrow> ('cfg, 'img) cifar_data_loader" where
  "cifar_init global_dataset cfg = \<lparr>config = cfg, dataset = global_dataset\<rparr>"

definition cifar_len :: "('cfg, 'img) cifar_data_loader \<Rightarrow> int" where
  "cifar_len self = int (length (dataset self))"

definition cifar_getitem ::
  "('img \<Rightarrow> 'arr) \<Rightarrow> ('cfg, 'img) cifar_data_loader \<Rightarrow> int \<Rightarrow> py_error + (int \<times> int) \<times> 'arr" where
  "cifar_getitem numpy self index =
     (case py_getitem (dataset self) index of
        Inl e \<Rightarrow> Inl e
      | Inr (img, lbl) \<Rightarrow> Inr ((index, lbl), numpy img))"

section \<open>Speech recognition notebook\<close>

text \<open>A sample of the dataset: its \<open>input_values\<close> and its \<open>text\<close> (here \<open>sample_text\<close>).\<close>

record 'inp sample =
  input_values :: 'inp
  sample_text :: string

subsection \<open>The LibriSpeech data loader\<close>

record 'inp libri_speech_data_loader =
  ds :: "'inp sample list"
  sample_limit :: "int option"

text \<open>The constructor takes \<open>sample_limit\<close> and stores \<open>None\<close>.\<close>

definition libri_init :: "'inp sample list \<Rightarrow> int option \<Rightarrow> 'inp libri_speech_data_loader" where
  "libri_init dataset_arg sample_limit_arg = \<lparr>ds = dataset_arg, sample_limit = None\<rparr>"

text \<open>\<open>self.sample_limit or len(self._ds)\<close>: the limit when it is neither \<open>None\<close> nor 0.\<close>

definition libri_len :: "'inp libri_speech_data_loader \<Rightarrow> int" where
  "libri_len self =
     (case sample_limit self of
        None \<Rightarrow> int (length (ds self))
      | Some limit \<Rightarrow> if limit \<noteq> 0 then limit else int (length (ds self)))"

text \<open>
  \<open>np_array\<close> stands for \<open>np.array\<close>; the dictionary \<open>{'inputs': ...}\<close> is an association
  list with one entry.
\<close>

definition libri_getitem ::
  "('inp \<Rightarrow> 'arr) \<Rightarrow> 'inp libri_speech_data_loader \<Rightarrow> int \<Rightarrow>
     py_error + (string \<times> 'arr) list \<times> string list" where
  "libri_getitem np_array self index =
     (case sample_limit self of
        Some limit \<Rightarrow>
          if index \<ge> limit then Inl StopIteration
          else (case py_getitem (ds self) index of
                  Inl e \<Rightarrow> Inl e
                | Inr s \<Rightarrow> Inr ([(''inputs'', np_array (input_values s))], [sample_text s]))
      | None \<Rightarrow>
          (case py_getitem (ds self) index of
             Inl e \<Rightarrow> Inl e
           | Inr s \<Rightarrow> Inr ([(''inputs'', np_array (input_values s))], [sample_text s])))"

subsection \<open>Inference with PyTorch and with OpenVINO\<close>

text \<open>
  The logits are an array of batch, time and vocabulary; \<open>argmax\<close> over the last axis
  gives, for every vocabulary row, the first index of its maximum, in \<open>torch.argmax\<close> as
  in \<open>np.argmax\<close>, and raises on an empty row (\<open>None\<close> here).
\<close>

fun argmax_scan :: "real list \<Rightarrow> nat \<Rightarrow> nat \<Rightarrow> real \<Rightarrow> nat" where
  "argmax_scan [] i best best_value = best"
| "argmax_scan (x # xs) i best best_value =
     (if best_value < x then argmax_scan xs (Suc i) i x
      else argmax_scan xs (Suc i) best best_value)"

definition argmax :: "real list \<Rightarrow> nat option" where
  "argmax xs = (case xs of [] \<Rightarrow> None | x # rest \<Rightarrow> Some (argmax_scan rest 1 0 x))"

definition argmax_last_axis :: "real list list list \<Rightarrow> nat list list option" where
  "argmax_last_axis logits = those (map (\<lambda>seq. those (map argmax seq)) logits)"

text \<open>
  \<open>torch_infer\<close>: the model is a function from the input tensor to its logits;
  \<open>torch_tensor\<close> stands for \<open>torch.Tensor\<close> and \<open>batch_decode\<close> for
  \<open>processor.batch_decode\<close>. The result is \<open>None\<close> when the call raises.
\<close>

definition torch_infer ::
  "('inp \<Rightarrow> 'tin) \<Rightarrow> (nat list list \<Rightarrow> string list) \<Rightarrow> ('tin \<Rightarrow> real list list list) \<Rightarrow>
     'inp sample \<Rightarrow> string list option" where
  "torch_infer torch_tensor batch_decode model s =
     (let logits = model (torch_tensor (input_values s)) in
      case argmax_last_axis logits of
        None \<Rightarrow> None
      | Some predicted_ids \<Rightarrow> Some (batch_decode predicted_ids))"

text \<open>
  \<open>ov_infer\<close>: the compiled model is a function from the input array to the list of its
  output tensors; \<open>model.output(0)\<close> names the first of them. \<open>torch.from_numpy\<close> keeps the
  token ids as they are.
\<close>

definition ov_infer ::
  "('inp \<Rightarrow> 'nin) \<Rightarrow> (nat list list \<Rightarrow> string list) \<Rightarrow> ('nin \<Rightarrow> real list list list list) \<Rightarrow>
     'inp sample \<Rightarrow> string list option" where
  "ov_infer np_array batch_decode model s =
     (case py_getitem (model (np_array (input_values s))) 0 of
        Inl e \<Rightarrow> None
      | Inr logits \<Rightarrow>
          (case argmax_last_axis logits of
             None \<Rightarrow> None
           | Some predicted_ids \<Rightarrow> Some (batch_decode predicted_ids)))"

section \<open>Segmentation notebook: the split of the cases\<close>

definition val_indices :: "nat list" where
  "val_indices = [7, 10, 14, 15, 30, 60, 71, 74, 75, 81, 92, 93,
                  106, 115, 117, 119, 134, 161, 192, 196, 203]"

definition test_indices :: "nat list" where
  "test_indices = [2, 5, 37, 103, 174]"

definition train_indices :: "nat set" where
  "train_indices = set [0..<210] - set val_indices - set test_indices"

text \<open>\<open>f"case_{i:05d}"\<close>: the decimal digits, padded with zeros on the left to five.\<close>

definition format_05d :: "nat \<Rightarrow> string" where
  "format_05d i = replicate (5 - length (digits i)) CHR ''0'' @ digits i"

definition case_name :: "nat \<Rightarrow> string" where
  "case_name i = ''case_'' @ format_05d i"

definition val_cases :: "string list" where
  "val_cases = map case_name val_indices"

text \<open>The order in which Python walks the set is open; only membership is used.\<close>

definition train_cases :: "string set" where
  "train_cases = case_name ` train_indices"

text \<open>
  A file found by \<open>data_path.glob("case_*/<frames>/*")\<close> lies two directories below the
  data directory, so \<open>Path(f).parents[1].name\<close> is the name of its case directory.
\<close>

record frame_path =
  case_dir :: string
  frames_dir :: string
  file_name :: string

definition parents_1_name :: "frame_path \<Rightarrow> string" where
  "parents_1_name f = case_dir f"

definition train_files :: "frame_path list \<Rightarrow> frame_path list" where
  "train_files files = filter (\<lambda>f. parents_1_name f \<in> train_cases) files"

definition val_files :: "frame_path list \<Rightarrow> frame_path list" where
  "val_files files = filter (\<lambda>f. parents_1_name f \<in> set val_cases) files"

text \<open>Reading a decimal numeral back, to tell the case names apart.\<close>

definition digit_value :: "char \<Rightarrow> nat" where
  "digit_value c = (of_char c - 48) mod 10"

definition number_of :: "string \<Rightarrow> nat" where
  "number_of s = foldl (\<lambda>a c. 10 * a + digit_value c) 0 s"

section \<open>Properties of the sentence splitter\<close>

lemma re_split_scan_nonempty: "re_split_scan prev cur rest \<noteq> []"
  by (induction prev cur rest rule: re_split_scan.induct) auto

lemma re_split_nonempty: "re_split txt \<noteq> []"
  by (simp add: re_split_def re_split_scan_nonempty)

text \<open>
  The loop invariant of the batching: what has been flushed, then the open batch, then the
  sentences still to come, is the sentence list. The open batch is empty at the end
  because the final sentence equals \<open>sentences[-1]\<close>.
\<close>

lemma batch_loop_concat:
  "(ss = [] \<longrightarrow> temp = []) \<Longrightarrow> (ss \<noteq> [] \<longrightarrow> last ss = lst) \<Longrightarrow>
   concat (batch_loop lst ss batches temp) = concat batches @ temp @ ss"
proof (induction ss arbitrary: batches temp)
  case Nil
  then show ?case by simp
next
  case (Cons s ss)
  show ?case
  proof (cases "ss = []")
    case True
    with Cons.prems show ?thesis by (simp add: Let_def)
  next
    case False
    with Cons.prems have l: "last ss = lst" by simp
    have a: "concat (batch_loop lst ss (batches @ [temp @ [s]]) []) =
             concat (batches @ [temp @ [s]]) @ [] @ ss"
      by (rule Cons.IH) (use False l in simp_all)
    have b: "concat (batch_loop lst ss batches (temp @ [s])) = concat batches @ (temp @ [s]) @ ss"
      by (rule Cons.IH) (use False l in simp_all)
    from a b show ?thesis by (simp add: Let_def)
  qed
qed

text \<open>
  C2: for every text, the batches of \<open>split_text\<close>, concatenated in order, are exactly the
  sentences of the regex split: the batching loop drops, repeats and reorders nothing.
\<close>

theorem split_text_concat: "concat (split_text txt) = re_split txt"
  unfolding split_text_def Let_def
  by (subst batch_loop_concat) (simp_all add: re_split_nonempty)

text \<open>The open batch holds at most one sentence whenever the loop reads the next one.\<close>

lemma batch_loop_sizes:
  "length temp \<le> 1 \<Longrightarrow> \<forall>b \<in> set batches. length b = 1 \<or> length b = 2 \<Longrightarrow>
   \<forall>b \<in> set (batch_loop lst ss batches temp). length b = 1 \<or> length b = 2"
proof (induction ss arbitrary: batches temp)
  case Nil
  then show ?case by simp
next
  case (Cons s ss)
  from Cons.prems(1) have "length temp = 0 \<or> length temp = 1" by arith
  then show ?case
  proof
    assume "length temp = 0"
    then have t: "temp = []" by simp
    show ?thesis
    proof (cases "s = lst")
      case True
      have "\<forall>b \<in> set (batch_loop lst ss (batches @ [[s]]) []). length b = 1 \<or> length b = 2"
        by (rule Cons.IH) (use Cons.prems(2) in auto)
      with True t show ?thesis by simp
    next
      case False
      have "\<forall>b \<in> set (batch_loop lst ss batches [s]). length b = 1 \<or> length b = 2"
        by (rule Cons.IH) (use Cons.prems(2) in auto)
      with False t show ?thesis by simp
    qed
  next
    assume l: "length temp = 1"
    have "\<forall>b \<in> set (batch_loop lst ss (batches @ [temp @ [s]]) []). length b = 1 \<or> length b = 2"
      by (rule Cons.IH) (use Cons.prems(2) l in auto)
    with l show ?thesis by (simp add: Let_def)
  qed
qed

lemma split_text_example:
  "split_text ''Hello there. How are you?  Fine thanks. bye. A. B'' =
     [[''Hello there.'', ''How are you?''], [''Fine thanks. bye.'', ''A.''], [''B'']]"
  by (simp add: split_text_def re_split_def is_space_def is_upper_def)

text \<open>
  C9: for every text, every batch returned by \<open>split_text\<close> holds exactly one or two
  sentences; no batch is empty and none holds three.
\<close>

theorem split_text_batch_sizes:
  "\<forall>b \<in> set (split_text txt). length b = 1 \<or> length b = 2"
  unfolding split_text_def Let_def by (rule batch_loop_sizes) simp_all

theorem split_text_batch_sizes_witness:
  "split_text ''Hello there. How are you?  Fine thanks. bye. A. B'' \<noteq> [] \<and>
   list_all (\<lambda>b. length b = 1 \<or> length b = 2)
     (split_text ''Hello there. How are you?  Fine thanks. bye. A. B'')"
  using split_text_batch_sizes [of "''Hello there. How are you?  Fine thanks. bye. A. B''"]
  by (simp add: list_all_iff split_text_example)

section \<open>Properties of the correction loop\<close>

lemma correct_loop_map:
  "correct_loop checker corrector batches acc = acc @ map (batch_output checker corrector) batches"
  by (induction batches arbitrary: acc) (auto simp: batch_output_def Let_def)

text \<open>
  C1: for every text, \<open>correct_text\<close> is the separator-join, in batch order, of one output
  per batch of \<open>split_text\<close>, where a batch's raw text (its sentences joined by a space) is
  kept exactly when the checker labels it \<open>LABEL_1\<close> with score at least 0.9 and is
  replaced by the corrector's text otherwise.
\<close>

theorem correct_text_spec:
  "correct_text txt checker corrector separator =
     py_join separator (map (batch_output checker corrector) (split_text txt))"
  by (simp add: correct_text_def correct_loop_map)


section \<open>Properties of the accuracy metric\<close>

text \<open>
  The comprehension succeeds exactly when there is a row for every label; its result
  pairs the rows with the labels.
\<close>

lemma match_from_eq:
  "match_from preds i ts =
     (if ts = [] \<or> i + length ts \<le> length preds
      then Inr (map (\<lambda>(p, t). if t \<in> set p then 1 else 0) (zip (drop i preds) ts))
      else Inl IndexError)"
proof (induction ts arbitrary: i)
  case Nil
  then show ?case by simp
next
  case (Cons t ts)
  show ?case
  proof (cases "i < length preds")
    case True
    then have d: "drop i preds = preds ! i # drop (Suc i) preds"
      by (simp add: Cons_nth_drop_Suc)
    show ?thesis
    proof (cases "ts = []")
      case True
      with \<open>i < length preds\<close> d show ?thesis by simp
    next
      case False
      with True d Cons.IH [of "Suc i"] show ?thesis by simp
    qed
  next
    case False
    then show ?thesis by simp
  qed
qed

lemma update_match_cases:
  "update_match k output target =
     (if 1 < length output then Inl Exception_multiple_outputs
      else if output = [] \<or> length (hd output) < length (target_values target) then Inl IndexError
      else Inr (spec_match k (output, target)))"
  by (cases "output")
     (auto simp: update_match_def match_from_eq predictions_of_def spec_match_def indicator_def
        zip_map1 split_def)

lemma update_eq:
  "update self output target =
     (case update_match (top_k self) output target of
        Inl e \<Rightarrow> (Some e, self)
      | Inr m \<Rightarrow> (None, self\<lparr>matches := matches self @ [m]\<rparr>))"
  by (simp add: update_def)

lemma accuracy_init_1: "accuracy_init 1 = \<lparr>top_k = 1, name = ''accuracy@top1'', matches = []\<rparr>"
  by (simp add: accuracy_init_def str_int_def digit_char_def)

text \<open>
  C3, as stated, fails: \<open>update\<close> also raises (an \<open>IndexError\<close>) on an empty output
  list, and on a single output with fewer rows than there are labels, where
  \<open>len(output) > 1\<close> is false.
\<close>

theorem update_raises_iff_counterexample:
  "update (accuracy_init 1) [] (TargetList [0] :: string target) =
     (Some IndexError, accuracy_init 1) \<and>
   \<not> 1 < length ([] :: real list list list) \<and>
   update (accuracy_init 1) [[[0.1, 0.9]]] (TargetList [1, 0] :: string target) =
     (Some IndexError, accuracy_init 1) \<and>
   \<not> 1 < length [[[0.1, 0.9 :: real]]]"
  by (simp add: update_eq update_match_cases)

text \<open>
  C3, amended: \<open>update\<close> raises exactly when the output list has more than one element
  (the explicit exception, and only then that one), or is empty, or its single array has
  fewer rows than there are labels; whenever it raises, the metric object is left as it
  was; when it does not raise, it appends the match list of this call and nothing else.
\<close>

theorem update_raises:
  "(fst (update self output target) \<noteq> None \<longleftrightarrow>
      1 < length output \<or> output = [] \<or> length (hd output) < length (target_values target)) \<and>
   (fst (update self output target) = Some Exception_multiple_outputs \<longleftrightarrow> 1 < length output) \<and>
   (fst (update self output target) \<noteq> None \<longrightarrow> snd (update self output target) = self) \<and>
   (fst (update self output target) = None \<longrightarrow>
      snd (update self output target) =
        self\<lparr>matches := matches self @ [spec_match (top_k self) (output, target)]\<rparr>)"
  by (simp add: update_eq update_match_cases)

theorem update_raises_witness:
  "update \<lparr>top_k = 1, name = ''accuracy@top1'', matches = [[1, 0]]\<rparr>
      [[[0.1, 0.9]], [[0.3, 0.7]]] (TargetList [1] :: string target) =
     (Some Exception_multiple_outputs,
      \<lparr>top_k = 1, name = ''accuracy@top1'', matches = [[1, 0]]\<rparr>) \<and>
   update \<lparr>top_k = 1, name = ''accuracy@top1'', matches = [[1, 0]]\<rparr>
      [[[0.1, 0.9], [0.8, 0.2]]] (TargetList [1, 1] :: string target) =
     (None, \<lparr>top_k = 1, name = ''accuracy@top1'', matches = [[1, 0], [1, 0]]\<rparr>)"
proof -
  let ?self = "\<lparr>top_k = 1, name = ''accuracy@top1'', matches = [[1, 0]]\<rparr>"
  have e: "spec_match 1 ([[[0.1, 0.9], [0.8, 0.2]]], TargetList [1, 1] :: string target) = [1, 0]"
    by code_simp
  from update_raises [of ?self "[[[0.1, 0.9]], [[0.3, 0.7]]]" "TargetList [1] :: string target"]
  have a: "update ?self [[[0.1, 0.9]], [[0.3, 0.7]]] (TargetList [1] :: string target) =
      (Some Exception_multiple_outputs, ?self)"
    by (simp add: prod_eq_iff)
  from update_raises [of ?self "[[[0.1, 0.9], [0.8, 0.2]]]" "TargetList [1, 1] :: string target"] e
  have b: "update ?self [[[0.1, 0.9], [0.8, 0.2]]] (TargetList [1, 1] :: string target) =
      (None, \<lparr>top_k = 1, name = ''accuracy@top1'', matches = [[1, 0], [1, 0]]\<rparr>)"
    by (simp add: prod_eq_iff)
  from a b show ?thesis by blast
qed

subsection \<open>Sequences of calls\<close>

lemma update_fields:
  "top_k (snd (update self output target)) = top_k self"
  "name (snd (update self output target)) = name self"
  by (simp_all add: update_eq split: sum.splits)

lemma run_fields: "top_k (run self calls) = top_k self \<and> name (run self calls) = name self"
proof (induction calls arbitrary: self)
  case Nil
  then show ?case by simp
next
  case (Cons c calls)
  then show ?case by (cases c) (simp_all add: update_fields reset_def)
qed

lemma run_append: "run self (xs @ ys) = run (run self xs) ys"
proof (induction xs arbitrary: self)
  case Nil
  then show ?case by simp
next
  case (Cons c xs)
  then show ?case by (cases c) simp_all
qed

lemma run_failing: "list_all (failing_update (top_k self)) calls \<Longrightarrow> run self calls = self"
proof (induction calls)
  case Nil
  then show ?case by simp
next
  case (Cons c calls)
  then show ?case
    by (cases c) (auto simp: failing_update_def update_eq isl_def)
qed

text \<open>
  C7: after a successful \<open>update\<close>, whatever calls came before it (updates or resets) and
  whatever failing updates came after it, \<open>value\<close> returns, under the metric's name, the
  match list that this most recent successful update appended.
\<close>

theorem value_after_update:
  assumes "update_match (top_k self) output target = Inr m"
    and "list_all (failing_update (top_k self)) later"
  shows "value_of (run self (earlier @ Update output target # later)) = Inr (name self, m) \<and>
         last (matches (run self (earlier @ Update output target # later))) = m"
proof -
  let ?s = "run self earlier"
  have k: "top_k ?s = top_k self" and n: "name ?s = name self"
    by (simp_all add: run_fields)
  have u: "snd (update ?s output target) = ?s\<lparr>matches := matches ?s @ [m]\<rparr>"
    using assms(1) by (simp add: update_eq k)
  have "run self (earlier @ Update output target # later) =
        run (?s\<lparr>matches := matches ?s @ [m]\<rparr>) later"
    by (simp add: run_append u)
  also have "\<dots> = ?s\<lparr>matches := matches ?s @ [m]\<rparr>"
    by (rule run_failing) (simp add: k assms(2))
  finally show ?thesis
    by (simp add: value_of_def n)
qed


theorem value_after_update_witness:
  "value_of (run (accuracy_init 1)
      ([Update [[[0.3, 0.7]]] (TargetList [1]), Reset] @
        Update [[[0.1, 0.9], [0.8, 0.2]]] (TargetList [1, 1] :: string target) #
        [Update [] (TargetList [0])])) = Inr (''accuracy@top1'', [1, 0])"
proof -
  have h1: "update_match (top_k (accuracy_init 1)) [[[0.1, 0.9], [0.8, 0.2]]]
              (TargetList [1, 1] :: string target) = Inr [1, 0]"
    by code_simp
  have h2: "list_all (failing_update (top_k (accuracy_init 1)))
              [Update [] (TargetList [0] :: string target)]"
    by code_simp
  from value_after_update [OF h1 h2, of "[Update [[[0.3, 0.7]]] (TargetList [1]), Reset]"]
  show ?thesis by (simp add: accuracy_init_1)
qed

subsection \<open>The average\<close>

lemma update_all_matches:
  "update_all self calls = Inr self' \<Longrightarrow>
   matches self' = matches self @ map (spec_match (top_k self)) calls \<and>
   top_k self' = top_k self \<and> name self' = name self"
proof (induction calls arbitrary: self)
  case Nil
  then show ?case by simp
next
  case (Cons c calls)
  obtain out tgt where c: "c = (out, tgt)" by (cases c)
  show ?case
  proof (cases "update_match (top_k self) out tgt")
    case (Inl e)
    with Cons.prems c show ?thesis by (simp add: update_eq)
  next
    case (Inr m)
    let ?s = "self\<lparr>matches := matches self @ [m]\<rparr>"
    from Inr have m: "m = spec_match (top_k self) (out, tgt)"
      by (simp add: update_match_cases split: if_splits)
    from Cons.prems c Inr have "update_all ?s calls = Inr self'"
      by (simp add: update_eq)
    from Cons.IH [OF this] m c show ?thesis by simp
  qed
qed

text \<open>
  For \<open>top_k\<close> of at least 1 the slice \<open>[-top_k:]\<close> takes the last \<open>top_k\<close> entries of the
  ascending argsort (all of them when the row is shorter), which form a top-\<open>k\<close> set.
\<close>

lemma top_indices_drop:
  assumes "1 \<le> k"
  shows "top_indices k row =
         map int (drop (length row - nat k) (sort_key (\<lambda>i. row ! i) [0..<length row]))"
proof -
  have "nat (max (int (length row) - k) 0) = length row - nat k"
    using assms by auto
  with assms show ?thesis
    by (simp add: top_indices_def py_slice_from_def argsort_def drop_map)
qed

lemma top_indices_is_top_k:
  assumes "1 \<le> k"
  shows "is_top_k (nat k) row (set (top_indices k row))"
proof -
  let ?n = "length row"
  let ?f = "\<lambda>i. row ! i"
  let ?xs = "sort_key ?f [0..<?n]"
  let ?s = "?n - nat k"
  let ?T = "set (top_indices k row)"
  have T: "?T = int ` set (drop ?s ?xs)"
    by (simp add: top_indices_drop [OF assms])
  have sx: "set ?xs = {0..<?n}" by simp
  have dx: "distinct ?xs" by simp
  have len: "length ?xs = ?n" by simp
  have sub: "?T \<subseteq> int ` {0..<?n}"
    unfolding T using set_drop_subset [of ?s ?xs] sx by blast
  have "card ?T = card (set (drop ?s ?xs))"
    unfolding T by (rule card_image) (simp add: inj_on_def)
  also have "\<dots> = length (drop ?s ?xs)"
    by (rule distinct_card) (simp add: dx)
  also have "\<dots> = min (nat k) ?n"
    using len by auto
  finally have card: "card ?T = min (nat k) ?n" .
  have srt: "sorted (map ?f (take ?s ?xs @ drop ?s ?xs))"
    by simp
  have ord: "row ! nat j \<le> row ! nat i" if i: "i \<in> ?T" and j: "j \<in> int ` {0..<?n} - ?T" for i j
  proof -
    from i obtain a where a: "a \<in> set (drop ?s ?xs)" "i = int a" unfolding T by blast
    from j obtain b where b: "b \<in> {0..<?n}" "j = int b" "int b \<notin> ?T" by blast
    from b have "b \<notin> set (drop ?s ?xs)" unfolding T by blast
    moreover have "set ?xs = set (take ?s ?xs) \<union> set (drop ?s ?xs)"
      by (metis append_take_drop_id set_append)
    ultimately have "b \<in> set (take ?s ?xs)" using b(1) sx by auto
    with a srt have "?f b \<le> ?f a"
      unfolding map_append sorted_append by auto
    with a b show ?thesis by simp
  qed
  from sub card ord show ?thesis
    unfolding is_top_k_def by blast
qed

text \<open>
  C4, as stated, fails in three places. With no indicator accumulated \<open>avg_value\<close> returns
  NaN, which is no mean. After two successful updates with two samples and with one
  sample the match lists differ in length and \<open>avg_value\<close> raises. With \<open>top_k = 0\<close> the
  slice \<open>[-0:]\<close> is the whole row, so the label with the lowest score counts as a match,
  while no index is among the top 0.
\<close>

theorem avg_value_counterexample:
  "avg_value (accuracy_init 1) = Inr (''accuracy@top1'', NaN) \<and>
   update_all (accuracy_init 1)
     [([[[0.1, 0.9], [0.8, 0.2]]], TargetList [1, 1] :: string target),
      ([[[0.3, 0.7]]], TargetList [1])] =
     Inr \<lparr>top_k = 1, name = ''accuracy@top1'', matches = [[1, 0], [1]]\<rparr> \<and>
   avg_value \<lparr>top_k = 1, name = ''accuracy@top1'', matches = [[1, 0], [1]]\<rparr> = Inl ValueError \<and>
   update_all (accuracy_init 0) [([[[0.9, 0.1]]], TargetList [1] :: string target)] =
     Inr \<lparr>top_k = 0, name = ''accuracy@top0'', matches = [[1]]\<rparr> \<and>
   \<not> is_top_k 0 [0.9, 0.1] (set (top_indices 0 [0.9, 0.1]))"
  by code_simp

text \<open>
  C4, amended: on a metric object with \<open>top_k\<close> of at least 1 that is new or has just
  been reset, after any sequence of successful \<open>update\<close> calls whose match lists have one
  length, \<open>_matches\<close> holds one match list per update, each holding the indicators of its
  samples (1.0 when the label is among the class indices that \<open>argsort\<close> ranks in the last
  \<open>top_k\<close> places, which are a top-\<open>k\<close> set of the row; 0.0 otherwise); \<open>avg_value\<close> returns,
  under the metric's name, the arithmetic mean of all these indicators, and NaN when
  there is none; and \<open>reset\<close> empties the accumulated matches.
\<close>

theorem avg_value_mean:
  assumes "1 \<le> top_k self" and "matches self = []"
    and "update_all self calls = Inr self'"
    and "homogeneous (map (spec_match (top_k self)) calls)"
  shows "matches self' = map (spec_match (top_k self)) calls \<and>
         avg_value self' =
           Inr (name self,
                if concat (map (spec_match (top_k self)) calls) = [] then NaN
                else Float (arith_mean (concat (map (spec_match (top_k self)) calls)))) \<and>
         is_top_k (nat (top_k self)) row (set (top_indices (top_k self) row)) \<and>
         matches (reset self') = []"
proof -
  from update_all_matches [OF assms(3)] assms(2)
  have m: "matches self' = map (spec_match (top_k self)) calls" and n: "name self' = name self"
    by simp_all
  from m n assms(4) have "avg_value self' =
      Inr (name self,
           if concat (map (spec_match (top_k self)) calls) = [] then NaN
           else Float (arith_mean (concat (map (spec_match (top_k self)) calls))))"
    by (simp add: avg_value_def np_mean_def arith_mean_def)
  with m top_indices_is_top_k [OF assms(1)] show ?thesis
    by (simp add: reset_def)
qed

theorem avg_value_mean_witness:
  "update_all (accuracy_init 1)
     [([[[0.1, 0.9], [0.8, 0.2]]], TargetList [1, 1] :: string target),
      ([[[0.3, 0.7], [0.6, 0.4]]], TargetList [1, 0])] =
     Inr \<lparr>top_k = 1, name = ''accuracy@top1'', matches = [[1, 0], [1, 1]]\<rparr> \<and>
   avg_value \<lparr>top_k = 1, name = ''accuracy@top1'', matches = [[1, 0], [1, 1]]\<rparr> =
     Inr (''accuracy@top1'', Float (3 / 4))"
proof -
  let ?calls = "[([[[0.1, 0.9], [0.8, 0.2]]], TargetList [1, 1] :: string target),
      ([[[0.3, 0.7], [0.6, 0.4]]], TargetList [1, 0])]"
  let ?s = "\<lparr>top_k = 1, name = ''accuracy@top1'', matches = [[1, 0], [1, 1]]\<rparr>"
  have h1: "1 \<le> top_k (accuracy_init 1)" by code_simp
  have h2: "matches (accuracy_init 1) = []" by code_simp
  have h3: "update_all (accuracy_init 1) ?calls = Inr ?s" by code_simp
  have h4: "homogeneous (map (spec_match (top_k (accuracy_init 1))) ?calls)" by code_simp
  have e: "concat (map (spec_match (top_k (accuracy_init 1))) ?calls) = [1, 0, 1, 1]" by code_simp
  have n: "name (accuracy_init 1) = ''accuracy@top1''" by code_simp
  from avg_value_mean [OF h1 h2 h3 h4] have "avg_value ?s =
      Inr (name (accuracy_init 1),
           if concat (map (spec_match (top_k (accuracy_init 1))) ?calls) = [] then NaN
           else Float (arith_mean (concat (map (spec_match (top_k (accuracy_init 1))) ?calls))))"
    by blast
  then have "avg_value ?s = Inr (''accuracy@top1'', Float (3 / 4))"
    unfolding e n by (simp add: arith_mean_def)
  with h3 show ?thesis by blast
qed



section \<open>Properties of the data loaders\<close>

lemma py_getitem_valid:
  assumes "- int (length xs) \<le> i" and "i < int (length xs)"
  shows "\<exists>x. py_getitem xs i = Inr x"
  using assms by (simp add: py_getitem_def)

lemma py_getitem_error: "py_getitem xs i = Inl e \<Longrightarrow> e = IndexError"
  by (simp add: py_getitem_def split: if_splits)

text \<open>
  C5: for every index that is valid in the wrapped dataset, \<open>__getitem__(index)\<close> returns
  \<open>((index, label), image.numpy())\<close> where \<open>(image, label) = dataset[index]\<close>, with
  nothing else done to the sample, and \<open>__len__()\<close> is the length of the dataset.
\<close>

theorem cifar_getitem_spec:
  assumes "- int (length dataset_0) \<le> index" and "index < int (length dataset_0)"
  shows "\<exists>img lbl.
           py_getitem dataset_0 index = Inr (img, lbl) \<and>
           cifar_getitem numpy (cifar_init dataset_0 cfg) index = Inr ((index, lbl), numpy img) \<and>
           cifar_len (cifar_init dataset_0 cfg) = int (length dataset_0)"
proof -
  from py_getitem_valid [OF assms] obtain x where x: "py_getitem dataset_0 index = Inr x"
    by blast
  obtain img lbl where "x = (img, lbl)" by (cases x)
  with x show ?thesis
    by (simp add: cifar_getitem_def cifar_init_def cifar_len_def)
qed

theorem cifar_getitem_spec_witness:
  "cifar_getitem rev (cifar_init [(''ab'', 3), (''cd'', 8)] ()) 1 = Inr ((1, 8), ''dc'') \<and>
   cifar_len (cifar_init [(''ab'', 3), (''cd'', 8)] ()) = 2"
proof -
  have h1: "- int (length [(''ab'', 3::int), (''cd'', 8)]) \<le> 1" by simp
  have h2: "1 < int (length [(''ab'', 3::int), (''cd'', 8)])" by simp
  have g: "py_getitem [(''ab'', 3::int), (''cd'', 8)] 1 = Inr (''cd'', 8)"
    by (simp add: py_getitem_def)
  from cifar_getitem_spec [OF h1 h2, of rev "()"] g show ?thesis by auto
qed

text \<open>
  C8: for every dataset and every \<open>sample_limit\<close> argument the constructor stores \<open>None\<close>,
  so \<open>__len__()\<close> is the length of the dataset and \<open>__getitem__(index)\<close> never raises
  \<open>StopIteration\<close>; for an index valid in the dataset it returns the sample's inputs and
  label.
\<close>

theorem libri_len_getitem:
  "sample_limit (libri_init dataset_0 limit) = None \<and>
   libri_len (libri_init dataset_0 limit) = int (length dataset_0) \<and>
   libri_getitem np_array (libri_init dataset_0 limit) index \<noteq> Inl StopIteration \<and>
   (- int (length dataset_0) \<le> index \<and> index < int (length dataset_0) \<longrightarrow>
      (\<exists>s. py_getitem dataset_0 index = Inr s \<and>
           libri_getitem np_array (libri_init dataset_0 limit) index =
             Inr ([(''inputs'', np_array (input_values s))], [sample_text s])))"
proof -
  let ?self = "libri_init dataset_0 limit"
  have n: "sample_limit ?self = None" and d: "ds ?self = dataset_0"
    by (simp_all add: libri_init_def)
  have g: "libri_getitem np_array ?self index =
      (case py_getitem dataset_0 index of
         Inl e \<Rightarrow> Inl e
       | Inr s \<Rightarrow> Inr ([(''inputs'', np_array (input_values s))], [sample_text s]))"
    by (simp add: libri_getitem_def n d)
  have l: "libri_len ?self = int (length dataset_0)"
    by (simp add: libri_len_def n d)
  have s: "libri_getitem np_array ?self index \<noteq> Inl StopIteration"
    unfolding g by (auto split: sum.splits dest: py_getitem_error)
  have v: "\<exists>s. py_getitem dataset_0 index = Inr s \<and>
           libri_getitem np_array ?self index =
             Inr ([(''inputs'', np_array (input_values s))], [sample_text s])"
    if "- int (length dataset_0) \<le> index" and "index < int (length dataset_0)"
  proof -
    from py_getitem_valid [OF that] obtain x where "py_getitem dataset_0 index = Inr x"
      by blast
    then show ?thesis by (simp add: g)
  qed
  from n l s v show ?thesis by blast
qed

theorem libri_len_getitem_witness:
  "libri_getitem length
     (libri_init [\<lparr>input_values = [1, 2 :: int], sample_text = ''A''\<rparr>,
                  \<lparr>input_values = [3], sample_text = ''B''\<rparr>] (Some 1)) 1 =
     Inr ([(''inputs'', 1)], [''B'']) \<and>
   libri_len
     (libri_init [\<lparr>input_values = [1, 2 :: int], sample_text = ''A''\<rparr>,
                  \<lparr>input_values = [3], sample_text = ''B''\<rparr>] (Some 1)) = 2"
proof -
  let ?d = "[\<lparr>input_values = [1, 2 :: int], sample_text = ''A''\<rparr>,
             \<lparr>input_values = [3], sample_text = ''B''\<rparr>]"
  have g: "py_getitem ?d 1 = Inr \<lparr>input_values = [3], sample_text = ''B''\<rparr>"
    by (simp add: py_getitem_def)
  from libri_len_getitem [of ?d "Some 1" length 1] g show ?thesis by auto
qed

section \<open>Properties of the inference functions\<close>

text \<open>
  C6: for every sample, if the first output of the compiled OpenVINO model is the logits
  tensor that the PyTorch model produces for the sample's \<open>input_values\<close>, then
  \<open>ov_infer\<close> and \<open>torch_infer\<close> return the same transcription: the decoding of the
  argmax of the logits over the last axis.
\<close>

theorem infer_equal:
  assumes "py_getitem (ov_model (np_array (input_values s))) 0 =
           Inr (torch_model (torch_tensor (input_values s)))"
  shows "ov_infer np_array batch_decode ov_model s =
         torch_infer torch_tensor batch_decode torch_model s \<and>
         torch_infer torch_tensor batch_decode torch_model s =
           map_option batch_decode (argmax_last_axis (torch_model (torch_tensor (input_values s))))"
  using assms by (simp add: ov_infer_def torch_infer_def Let_def split: option.splits)


theorem infer_equal_witness:
  "ov_infer id (map (map (\<lambda>i. ''ab'' ! i))) (\<lambda>x. [[[[0.1, 0.9], [0.7, 0.3]]]])
     \<lparr>input_values = [0.5 :: real], sample_text = ''BA''\<rparr> = Some [''ba''] \<and>
   torch_infer id (map (map (\<lambda>i. ''ab'' ! i))) (\<lambda>x. [[[0.1, 0.9], [0.7, 0.3]]])
     \<lparr>input_values = [0.5 :: real], sample_text = ''BA''\<rparr> = Some [''ba'']"
proof -
  let ?s = "\<lparr>input_values = [0.5 :: real], sample_text = ''BA''\<rparr>"
  let ?ov = "\<lambda>x :: real list. [[[[0.1, 0.9], [0.7, 0.3 :: real]]]]"
  let ?torch = "\<lambda>x :: real list. [[[0.1, 0.9], [0.7, 0.3 :: real]]]"
  have h: "py_getitem (?ov (id (input_values ?s))) 0 = Inr (?torch (id (input_values ?s)))"
    by (simp add: py_getitem_def)
  have a: "argmax_last_axis [[[0.1, 0.9], [0.7, 0.3]]] = Some [[1, 0]]"
    by (simp add: argmax_last_axis_def argmax_def)
  from infer_equal [where ov_model = ?ov and np_array = id and s = ?s and torch_model = ?torch
      and torch_tensor = id and batch_decode = "map (map (\<lambda>i. ''ab'' ! i))"] h a
  show ?thesis by simp
qed

section \<open>Properties of the split of the cases\<close>

text \<open>The case names tell the case numbers apart: the number can be read back.\<close>

lemma digit_value_digit_char: "d < 10 \<Longrightarrow> digit_value (digit_char d) = d"
proof -
  assume "d < 10"
  then have "d \<in> {0, 1, 2, 3, 4, 5, 6, 7, 8, 9}" by auto
  then show ?thesis
    by (auto simp: digit_value_def digit_char_def)
qed

lemma number_of_snoc: "number_of (s @ [c]) = 10 * number_of s + digit_value c"
  by (simp add: number_of_def)

lemma number_of_digits: "number_of (digits n) = n"
proof (induction n rule: digits.induct)
  case (1 n)
  show ?case
  proof (cases "n < 10")
    case True
    then have "digits n = [digit_char n]" by (subst digits.simps) simp
    with True show ?thesis
      by (simp add: number_of_def digit_value_digit_char)
  next
    case False
    then have "digits n = digits (n div 10) @ [digit_char (n mod 10)]"
      by (subst digits.simps) simp
    with False "1.IH" show ?thesis
      by (simp add: number_of_snoc digit_value_digit_char)
  qed
qed

lemma foldl_zeros:
  "foldl (\<lambda>a c. 10 * a + digit_value c) 0 (replicate k CHR ''0'') = 0"
  by (induction k) (simp_all add: digit_value_def)

lemma number_of_format_05d: "number_of (format_05d i) = i"
proof -
  have "number_of (format_05d i) = foldl (\<lambda>a c. 10 * a + digit_value c) 0 (digits i)"
    by (simp add: number_of_def format_05d_def foldl_zeros)
  also have "\<dots> = i"
    using number_of_digits [of i] by (simp add: number_of_def)
  finally show ?thesis .
qed

lemma inj_case_name: "inj case_name"
proof (rule injI)
  fix i j
  assume "case_name i = case_name j"
  then have "format_05d i = format_05d j"
    by (simp add: case_name_def)
  then have "number_of (format_05d i) = number_of (format_05d j)" by simp
  then show "i = j" by (simp add: number_of_format_05d)
qed

lemma val_test_disjoint: "set val_indices \<inter> set test_indices = {}"
  by (simp add: val_indices_def test_indices_def)

lemma val_test_in_range: "set val_indices \<union> set test_indices \<subseteq> {0..<210}"
  by (simp add: val_indices_def test_indices_def)

lemma val_test_counts:
  "length val_indices = 21 \<and> distinct val_indices \<and> length test_indices = 5 \<and> distinct test_indices"
  by (simp add: val_indices_def test_indices_def)

lemma train_val_cases_disjoint: "train_cases \<inter> set val_cases = {}"
proof -
  have "train_indices \<inter> set val_indices = {}"
    by (auto simp: train_indices_def)
  then have "case_name ` train_indices \<inter> case_name ` set val_indices = {}"
    using inj_case_name by (simp add: image_Int [symmetric])
  then show ?thesis by (simp add: train_cases_def val_cases_def)
qed

text \<open>
  C10: the 21 validation indices, the 5 test indices and the computed training indices
  are pairwise disjoint and together are exactly 0 to 209; so no case directory holds a
  file of the training dataset and a file of the validation dataset, for segmentations
  and images alike.
\<close>

theorem case_split_partition:
  "length val_indices = 21 \<and> distinct val_indices \<and>
   length test_indices = 5 \<and> distinct test_indices \<and>
   set val_indices \<inter> set test_indices = {} \<and>
   train_indices \<inter> set val_indices = {} \<and>
   train_indices \<inter> set test_indices = {} \<and>
   train_indices \<union> set val_indices \<union> set test_indices = {0..<210} \<and>
   parents_1_name ` set (train_files segs) \<inter> parents_1_name ` set (val_files segs) = {} \<and>
   parents_1_name ` (set (train_files segs) \<union> set (train_files images)) \<inter>
     parents_1_name ` (set (val_files segs) \<union> set (val_files images)) = {}"
proof -
  have a: "train_indices \<inter> set val_indices = {}" "train_indices \<inter> set test_indices = {}"
    by (auto simp: train_indices_def)
  have b: "train_indices \<union> set val_indices \<union> set test_indices = {0..<210}"
    using val_test_in_range by (auto simp: train_indices_def)
  have c: "parents_1_name ` set (train_files xs) \<subseteq> train_cases" for xs
    by (auto simp: train_files_def)
  have d: "parents_1_name ` set (val_files xs) \<subseteq> set val_cases" for xs
    by (auto simp: val_files_def)
  have e: "parents_1_name ` set (train_files segs) \<inter> parents_1_name ` set (val_files segs) = {}"
    using c [of segs] d [of segs] train_val_cases_disjoint by blast
  have f: "parents_1_name ` (set (train_files segs) \<union> set (train_files images)) \<inter>
     parents_1_name ` (set (val_files segs) \<union> set (val_files images)) = {}"
    using c [of segs] d [of segs] c [of images] d [of images] train_val_cases_disjoint
    unfolding image_Un by blast
  from val_test_counts val_test_disjoint a b e f show ?thesis by blast
qed

end
